theory Spec2Isabelle
  imports Main "HOL-Library.Sublist"
begin

section \<open>Strings\<close>

text \<open>
  A TypeScript string is modelled as a \<^typ>\<open>string\<close>. The source files are UTF-8, and a
  character beyond ASCII is written as the bytes it has there. The Japanese fragments
  that the labels and URLs of \<^verbatim>\<open>feed-info-list.ts\<close> share are named once.
\<close>

definition fw_lparen :: string where
  \<comment> \<open>U+FF08, fullwidth left parenthesis\<close>
  "fw_lparen = [CHR 0xEF, CHR 0xBC, CHR 0x88]"

definition fw_rparen :: string where
  \<comment> \<open>U+FF09, fullwidth right parenthesis\<close>
  "fw_rparen = [CHR 0xEF, CHR 0xBC, CHR 0x89]"

definition ja_tag :: string where
  \<comment> \<open>U+30BF U+30B0, "tagu"\<close>
  "ja_tag = [CHR 0xE3, CHR 0x82, CHR 0xBF, CHR 0xE3, CHR 0x82, CHR 0xB0]"

definition ja_machine_learning :: string where
  \<comment> \<open>U+6A5F U+68B0 U+5B66 U+7FD2, "kikai gakushuu"\<close>
  "ja_machine_learning =
     [CHR 0xE6, CHR 0xA9, CHR 0x9F, CHR 0xE6, CHR 0xA2, CHR 0xB0,
      CHR 0xE5, CHR 0xAD, CHR 0xA6, CHR 0xE7, CHR 0xBF, CHR 0x92]"

definition ja_generative :: string where
  \<comment> \<open>U+751F U+6210, "seisei"\<close>
  "ja_generative = [CHR 0xE7, CHR 0x94, CHR 0x9F, CHR 0xE6, CHR 0x88, CHR 0x90]"

lemmas ja_defs = fw_lparen_def fw_rparen_def ja_tag_def ja_machine_learning_def ja_generative_def

section \<open>The feed registry (\<^verbatim>\<open>src/resources/feed-info-list.ts\<close>)\<close>

text \<open>
  \<^verbatim>\<open>type FeedInfoTuple = [label: string, url: ValidUrl]\<close> and
  \<^verbatim>\<open>interface FeedInfo { label: string; url: ValidUrl }\<close>.
  The type \<^verbatim>\<open>ValidUrl\<close> is erased when the program is compiled; at run time both
  components are strings, so the model takes any pair of strings.
\<close>

type_synonym FeedInfoTuple = "string \<times> string"

record FeedInfo =
  label :: string
  url :: string

text \<open>
  The outcome of a call is a sum: \<open>Inl\<close> an error that was thrown, \<open>Inr\<close> the value
  returned. \<open>ConfigurationError\<close> is the one error kind that is ever spoken of for the
  registry; the source has no \<^verbatim>\<open>throw\<close> statement.
\<close>

datatype error = ConfigurationError

text \<open>
  The loop \<^verbatim>\<open>for (const [label, url] of feedInfoTuples) { feedInfoList.push({label, url}) }\<close>,
  with the array built so far as the accumulator; \<^verbatim>\<open>push\<close> appends at the end.
\<close>

fun push_each :: "FeedInfoTuple list \<Rightarrow> FeedInfo list \<Rightarrow> FeedInfo list" where
  "push_each [] feedInfoList = feedInfoList"
| "push_each ((l, u) # rest) feedInfoList =
     push_each rest (feedInfoList @ [\<lparr>label = l, url = u\<rparr>])"

definition createFeedInfoList :: "FeedInfoTuple list \<Rightarrow> error + FeedInfo list" where
  "createFeedInfoList feedInfoTuples = Inr (push_each feedInfoTuples [])"

subsection \<open>The registry with its array in a store\<close>

text \<open>
  \<^verbatim>\<open>feedInfoList\<close> is an array that \<^verbatim>\<open>push\<close> updates in place. To speak of what a call
  reads and writes, the same code is also given over a store of arrays: an address is an
  index into the store, \<^verbatim>\<open>[]\<close> allocates a new array at the end of it, and \<^verbatim>\<open>push\<close>
  appends to the array at an address. The records are values.
\<close>

type_synonym store = "FeedInfo list list"

definition new_array :: "store \<Rightarrow> nat \<times> store" where
  "new_array h = (length h, h @ [[]])"

definition array_push :: "nat \<Rightarrow> FeedInfo \<Rightarrow> store \<Rightarrow> store" where
  "array_push a v h = (if a < length h then h[a := h ! a @ [v]] else h)"

fun push_each_st :: "FeedInfoTuple list \<Rightarrow> nat \<Rightarrow> store \<Rightarrow> store" where
  "push_each_st [] feedInfoList h = h"
| "push_each_st ((l, u) # rest) feedInfoList h =
     push_each_st rest feedInfoList (array_push feedInfoList \<lparr>label = l, url = u\<rparr> h)"

definition createFeedInfoList_st :: "FeedInfoTuple list \<Rightarrow> store \<Rightarrow> (error + nat) \<times> store" where
  "createFeedInfoList_st feedInfoTuples h =
     (case new_array h of (feedInfoList, h1) \<Rightarrow>
        (Inr feedInfoList, push_each_st feedInfoTuples feedInfoList h1))"

text \<open>The array a call returned, read from the store the call left.\<close>

definition returned_list :: "(error + nat) \<times> store \<Rightarrow> error + FeedInfo list" where
  "returned_list r =
     (case r of (Inl e, h) \<Rightarrow> Inl e
      | (Inr a, h) \<Rightarrow> if a < length h then Inr (h ! a) else Inr [])"

section \<open>Patterns over strings\<close>

text \<open>
  The shape of a URL is given twice: by the template literal type \<^verbatim>\<open>ValidUrl\<close> of the
  source and by a regular expression. Both are written in one small pattern language
  with a backtracking matcher. A pattern reads a string byte by byte.
\<close>

datatype cclass =
  Lit char  \<comment> \<open>the character itself\<close>
| Except char  \<comment> \<open>\<^verbatim>\<open>[^c]\<close>\<close>
| NoneOf "char list"  \<comment> \<open>any character but the listed ones\<close>
| AnyChar  \<comment> \<open>any character at all\<close>

fun in_class :: "cclass \<Rightarrow> char \<Rightarrow> bool" where
  "in_class (Lit c) x = (x = c)"
| "in_class (Except c) x = (x \<noteq> c)"
| "in_class (NoneOf cs) x = (x \<notin> set cs)"
| "in_class AnyChar x = True"

datatype pattern =
  Empty
| One cclass
| Then pattern pattern
| Or pattern pattern
| Many pattern  \<comment> \<open>zero or more repetitions\<close>

text \<open>
  \<open>accepts p s k\<close>: some prefix of \<open>s\<close> matches \<open>p\<close> and the continuation \<open>k\<close> accepts
  the rest. A repetition over a string of length \<open>n\<close> needs at most \<open>n\<close> rounds that
  consume something, so \<open>iter\<close> tries at most that many.
\<close>

primrec iter ::
  "(string \<Rightarrow> (string \<Rightarrow> bool) \<Rightarrow> bool) \<Rightarrow> nat \<Rightarrow> string \<Rightarrow> (string \<Rightarrow> bool) \<Rightarrow> bool" where
  "iter f 0 s k = k s"
| "iter f (Suc n) s k = (if k s then True else f s (\<lambda>t. iter f n t k))"

primrec accepts :: "pattern \<Rightarrow> string \<Rightarrow> (string \<Rightarrow> bool) \<Rightarrow> bool" where
  "accepts Empty s k = k s"
| "accepts (One c) s k =
     (case s of [] \<Rightarrow> False | x # xs \<Rightarrow> if in_class c x then k xs else False)"
| "accepts (Then a b) s k = accepts a s (\<lambda>t. accepts b t k)"
| "accepts (Or a b) s k = (if accepts a s k then True else accepts b s k)"
| "accepts (Many a) s k = iter (accepts a) (length s) s k"

text \<open>A match of the whole string, as between \<^verbatim>\<open>^\<close> and \<^verbatim>\<open>$\<close>.\<close>

definition matches :: "pattern \<Rightarrow> string \<Rightarrow> bool" where
  "matches p s = accepts p s (\<lambda>t. t = [])"

definition Opt :: "pattern \<Rightarrow> pattern" where
  \<comment> \<open>\<^verbatim>\<open>p?\<close>\<close>
  "Opt p = Or p Empty"

definition Many1 :: "pattern \<Rightarrow> pattern" where
  \<comment> \<open>\<^verbatim>\<open>p+\<close>\<close>
  "Many1 p = Then p (Many p)"

definition word :: "string \<Rightarrow> pattern" where
  "word s = foldr (\<lambda>c. Then (One (Lit c))) s Empty"

definition seq :: "pattern list \<Rightarrow> pattern" where
  "seq ps = foldr Then ps Empty"

text \<open>The meaning of a pattern as a set of strings, to check the matcher against.\<close>

inductive_set star :: "string set \<Rightarrow> string set" for A :: "string set" where
  star_nil: "[] \<in> star A"
| star_step: "u \<in> A \<Longrightarrow> v \<in> star A \<Longrightarrow> u @ v \<in> star A"

primrec lang :: "pattern \<Rightarrow> string set" where
  "lang Empty = {[]}"
| "lang (One c) = {[x] | x. in_class c x}"
| "lang (Then a b) = {u @ v | u v. u \<in> lang a \<and> v \<in> lang b}"
| "lang (Or a b) = lang a \<union> lang b"
| "lang (Many a) = star (lang a)"

subsection \<open>The two URL shapes\<close>

text \<open>
  \<^verbatim>\<open>type ValidUrl = `${'http' | 'https'}://${string}.${string}`\<close>: a string is of this
  type when it is \<^verbatim>\<open>http\<close> or \<^verbatim>\<open>https\<close>, then \<^verbatim>\<open>://\<close>, any string, a dot and any
  string. The compiler checks it on the literals of the source; nothing checks it when
  the program runs.
\<close>

definition ValidUrl_pattern :: pattern where
  "ValidUrl_pattern =
     seq [Or (word ''http'') (word ''https''), word ''://'',
          Many (One AnyChar), One (Lit CHR ''.''), Many (One AnyChar)]"

definition ValidUrl :: "string \<Rightarrow> bool" where
  "ValidUrl u = matches ValidUrl_pattern u"

text \<open>
  The dot of a regular expression is any character but a line terminator. A JavaScript
  engine has four of them: line feed, carriage return, U+2028 and U+2029. In UTF-8 the
  last two are the bytes E2 80 A8 and E2 80 A9, and E2 is the first byte of a character
  of three bytes. So the dot reads one byte other than line feed, carriage return and
  E2, or it reads E2 and the two bytes after it, which are not 80 A8 and not 80 A9 (and
  hold no line feed, carriage return or E2).
\<close>

definition regex_dot :: pattern where
  "regex_dot =
     Or (One (NoneOf [CHR 0x0A, CHR 0x0D, CHR 0xE2]))
        (Then (One (Lit (CHR 0xE2)))
           (Or (Then (One (NoneOf [CHR 0x0A, CHR 0x0D, CHR 0xE2, CHR 0x80]))
                     (One (NoneOf [CHR 0x0A, CHR 0x0D, CHR 0xE2])))
               (Then (One (Lit (CHR 0x80)))
                     (One (NoneOf [CHR 0x0A, CHR 0x0D, CHR 0xE2, CHR 0xA8, CHR 0xA9])))))"

text \<open>
  The regular expression \<^verbatim>\<open>^(https?)://[^/]+\.[^/]+/?.*$\<close>: an absolute URL with the
  scheme http or https and a dotted host.
\<close>

definition url_regex :: pattern where
  "url_regex =
     seq [word ''http'', Opt (One (Lit CHR ''s'')), word ''://'',
          Many1 (One (Except CHR ''/'')), One (Lit CHR ''.''), Many1 (One (Except CHR ''/'')),
          Opt (One (Lit CHR ''/'')), Many regex_dot]"

definition matches_url_regex :: "string \<Rightarrow> bool" where
  "matches_url_regex u = matches url_regex u"

lemmas pattern_defs =
  matches_url_regex_def url_regex_def regex_dot_def ValidUrl_def ValidUrl_pattern_def
  matches_def seq_def word_def Opt_def Many1_def

subsection \<open>The exported registry\<close>

text \<open>\<^verbatim>\<open>export const FEED_INFO_LIST: FeedInfo[] = createFeedInfoList([ ... ])\<close>, eleven tuples.\<close>

definition FEED_INFO_LIST :: "error + FeedInfo list" where
  "FEED_INFO_LIST = createFeedInfoList
     [(''ITmedia AI+'', ''https://rss.itmedia.co.jp/rss/2.0/aiplus.xml''),
      (''Zenn'' @ fw_lparen @ ja_machine_learning @ ja_tag @ fw_rparen,
       ''https://zenn.dev/topics/'' @ ja_machine_learning @ ''/feed''),
      (''Zenn'' @ fw_lparen @ ''AI'' @ ja_tag @ fw_rparen,
       ''https://zenn.dev/topics/ai/feed''),
      (''Zenn'' @ fw_lparen @ ja_generative @ ''AI'' @ ja_tag @ fw_rparen,
       ''https://zenn.dev/topics/'' @ ja_generative @ ''ai/feed''),
      (''Zenn'' @ fw_lparen @ ''DL'' @ ja_tag @ fw_rparen,
       ''https://zenn.dev/topics/deeplearning/feed''),
      (''Zenn'' @ fw_lparen @ ''LLM'' @ ja_tag @ fw_rparen,
       ''https://zenn.dev/topics/llm/feed''),
      (''Qiita'' @ fw_lparen @ ja_machine_learning @ ja_tag @ fw_rparen,
       ''https://qiita.com/tags/'' @ ja_machine_learning @ ''/feed''),
      (''Qiita'' @ fw_lparen @ ''AI'' @ ja_tag @ fw_rparen,
       ''https://qiita.com/tags/AI/feed''),
      (''Qiita'' @ fw_lparen @ ja_generative @ ''AI'' @ ja_tag @ fw_rparen,
       ''https://qiita.com/tags/'' @ ja_generative @ ''AI/feed''),
      (''Qiita'' @ fw_lparen @ ''DL'' @ ja_tag @ fw_rparen,
       ''https://qiita.com/tags/DL/feed''),
      (''Qiita'' @ fw_lparen @ ''LLM'' @ ja_tag @ fw_rparen,
       ''https://qiita.com/tags/LLM/feed'')]"

section \<open>The site configuration (\<^verbatim>\<open>src/common/constants.ts\<close>)\<close>

text \<open>
  The two constants of the module, \<^verbatim>\<open>siteUrlStem\<close> and \<^verbatim>\<open>siteUrl\<close>; the fields of the
  exported object have the same names, so the constants are prefixed here. A template
  literal is the concatenation of its parts.
\<close>

definition const_siteUrlStem :: string where
  "const_siteUrlStem = ''https://univac-1.github.io/ai-info-rss-feed''"

definition const_siteUrl :: string where
  "const_siteUrl = const_siteUrlStem @ ''/''"

record FeedUrls =
  atom :: string
  rss :: string
  json :: string

text \<open>
  The exported object (\<^verbatim>\<open>export default\<close>), with its site URLs, its feed URLs and its
  numeric settings. The numbers of the source are integer literals and one product of
  two of them, so they are integers here. The titles, descriptions, links and
  identifiers, which are string literals that nothing computes with, are left out.
\<close>

record SiteConfig =
  siteUrl :: string
  siteUrlStem :: string
  feedUrls :: FeedUrls
  feedFetchConcurrency :: int
  feedOgFetchConcurrency :: int
  aggregateFeedDurationInHours :: int
  maxFeedDescriptionLength :: int
  maxFeedContentLength :: int
  processImageConcurrency :: int
  eleventyFetchConcurrency :: int
  fetchedFeedCacheDurationInHours :: int
  fetchedOgCacheDurationInHours :: int

definition siteConfig :: SiteConfig where
  "siteConfig = \<lparr>
     siteUrl = const_siteUrl,
     siteUrlStem = const_siteUrlStem,
     feedUrls = \<lparr>
       atom = const_siteUrl @ ''feeds/atom.xml'',
       rss = const_siteUrl @ ''feeds/rss.xml'',
       json = const_siteUrl @ ''feeds/feed.json''\<rparr>,
     feedFetchConcurrency = 50,
     feedOgFetchConcurrency = 20,
     aggregateFeedDurationInHours = 8 * 24,
     maxFeedDescriptionLength = 200,
     maxFeedContentLength = 500,
     processImageConcurrency = 50,
     eleventyFetchConcurrency = 50,
     fetchedFeedCacheDurationInHours = 1,
     fetchedOgCacheDurationInHours = 24\<rparr>"

section \<open>The matcher against the meaning of patterns\<close>

lemma star_unfold:
  "u \<in> star A \<Longrightarrow> u = [] \<or> (\<exists>u1 u2. u = u1 @ u2 \<and> u1 \<noteq> [] \<and> u1 \<in> A \<and> u2 \<in> star A)"
proof (induction rule: star.induct)
  case star_nil
  show ?case by simp
next
  case (star_step u v)
  show ?case
  proof (cases "u = []")
    case True
    with star_step.IH show ?thesis by simp
  next
    case False
    with star_step.hyps show ?thesis by blast
  qed
qed

lemma iter_sound:
  assumes f: "\<And>s k. f s k \<Longrightarrow> \<exists>u v. s = u @ v \<and> u \<in> A \<and> k v"
  shows "iter f n s k \<Longrightarrow> \<exists>u v. s = u @ v \<and> u \<in> star A \<and> k v"
proof (induction n arbitrary: s)
  case 0
  then have "k s" by simp
  then show ?case using star_nil by fastforce
next
  case (Suc n)
  show ?case
  proof (cases "k s")
    case True
    then show ?thesis using star_nil by fastforce
  next
    case False
    with Suc.prems have "f s (\<lambda>t. iter f n t k)" by simp
    from f [OF this] obtain u t where s: "s = u @ t" and u: "u \<in> A" and t: "iter f n t k"
      by blast
    from Suc.IH [OF t] obtain u' v where "t = u' @ v" and "u' \<in> star A" and "k v"
      by blast
    with s u have "s = (u @ u') @ v \<and> u @ u' \<in> star A \<and> k v"
      by (simp add: star_step)
    then show ?thesis by blast
  qed
qed

lemma iter_complete:
  assumes f: "\<And>s k u v. s = u @ v \<Longrightarrow> u \<in> A \<Longrightarrow> k v \<Longrightarrow> f s k"
  shows "u \<in> star A \<Longrightarrow> k v \<Longrightarrow> length (u @ v) \<le> n \<Longrightarrow> iter f n (u @ v) k"
proof (induction n arbitrary: u)
  case 0
  then show ?case by simp
next
  case (Suc n)
  from star_unfold [OF Suc.prems(1)] show ?case
  proof
    assume "u = []"
    with Suc.prems(2) show ?thesis by simp
  next
    assume "\<exists>u1 u2. u = u1 @ u2 \<and> u1 \<noteq> [] \<and> u1 \<in> A \<and> u2 \<in> star A"
    then obtain u1 u2 where u: "u = u1 @ u2" and ne: "u1 \<noteq> []" and u1: "u1 \<in> A"
      and u2: "u2 \<in> star A" by blast
    from u ne Suc.prems(3) have "length (u2 @ v) \<le> n" by (cases u1) simp_all
    from Suc.IH [OF u2 Suc.prems(2) this] have "iter f n (u2 @ v) k" .
    with u1 have "f (u1 @ (u2 @ v)) (\<lambda>t. iter f n t k)" by (intro f [OF refl])
    with u show ?thesis by simp
  qed
qed

lemma accepts_lang:
  "accepts p s k \<longleftrightarrow> (\<exists>u v. s = u @ v \<and> u \<in> lang p \<and> k v)"
proof (induction p arbitrary: s k)
  case Empty
  show ?case by simp
next
  case (One c)
  show ?case
  proof (cases s)
    case Nil
    then show ?thesis by simp
  next
    case (Cons x xs)
    have "(\<exists>u v. x # xs = u @ v \<and> u \<in> lang (One c) \<and> k v) \<longleftrightarrow> in_class c x \<and> k xs"
    proof
      assume "\<exists>u v. x # xs = u @ v \<and> u \<in> lang (One c) \<and> k v"
      then obtain u v where "x # xs = u @ v" and "u \<in> lang (One c)" and "k v" by blast
      then show "in_class c x \<and> k xs" by auto
    next
      assume "in_class c x \<and> k xs"
      then have "x # xs = [x] @ xs \<and> [x] \<in> lang (One c) \<and> k xs" by simp
      then show "\<exists>u v. x # xs = u @ v \<and> u \<in> lang (One c) \<and> k v" by blast
    qed
    with Cons show ?thesis by simp
  qed
next
  case (Then a b)
  show ?case
    apply (simp add: Then.IH)
    apply (rule iffI)
     apply (metis append.assoc)
    apply (metis append.assoc)
    done
next
  case (Or a b)
  show ?case by (auto simp: Or.IH)
next
  case (Many a)
  show ?case
  proof
    assume "accepts (Many a) s k"
    then have "iter (accepts a) (length s) s k" by simp
    then have "\<exists>u v. s = u @ v \<and> u \<in> star (lang a) \<and> k v"
      by (rule iter_sound [rotated]) (simp add: Many.IH)
    then show "\<exists>u v. s = u @ v \<and> u \<in> lang (Many a) \<and> k v" by simp
  next
    assume "\<exists>u v. s = u @ v \<and> u \<in> lang (Many a) \<and> k v"
    then obtain u v where s: "s = u @ v" and u: "u \<in> star (lang a)" and k: "k v"
      by auto
    have "iter (accepts a) (length (u @ v)) (u @ v) k"
    proof (rule iter_complete [where A = "lang a"])
      show "\<And>s k u v. s = u @ v \<Longrightarrow> u \<in> lang a \<Longrightarrow> k v \<Longrightarrow> accepts a s k"
        by (auto simp: Many.IH)
      show "u \<in> star (lang a)" by (rule u)
      show "k v" by (rule k)
      show "length (u @ v) \<le> length (u @ v)" by simp
    qed
    with s show "accepts (Many a) s k" by simp
  qed
qed

lemma matches_lang: "matches p s \<longleftrightarrow> s \<in> lang p"
  by (simp add: matches_def accepts_lang)

subsection \<open>The two URL shapes in words\<close>

lemma lang_word: "lang (word w) = {w}"
  by (induction w) (auto simp: word_def)

lemma star_of_class:
  "star {[x] | x. P x} = {u. \<forall>x \<in> set u. P x}"
proof (intro equalityI subsetI)
  fix u assume "u \<in> star {[x] | x. P x}"
  then show "u \<in> {u. \<forall>x \<in> set u. P x}"
    by (induction rule: star.induct) auto
next
  fix u assume "u \<in> {u. \<forall>x \<in> set u. P x}"
  then have "\<forall>x \<in> set u. P x" by simp
  then show "u \<in> star {[x] | x. P x}"
  proof (induction u)
    case Nil
    show ?case by (rule star_nil)
  next
    case (Cons x u)
    then have "[x] \<in> {[x] | x. P x}" and "u \<in> star {[x] | x. P x}" by simp_all
    then have "[x] @ u \<in> star {[x] | x. P x}" by (rule star_step)
    then show ?case by simp
  qed
qed

lemma in_lang_Many_One: "u \<in> lang (Many (One c)) \<longleftrightarrow> (\<forall>x \<in> set u. in_class c x)"
  by (simp add: star_of_class)

lemma in_lang_Many1_One:
  "u \<in> lang (Many1 (One c)) \<longleftrightarrow> u \<noteq> [] \<and> (\<forall>x \<in> set u. in_class c x)"
proof
  assume "u \<in> lang (Many1 (One c))"
  then obtain x v where "u = [x] @ v" and "in_class c x" and "v \<in> lang (Many (One c))"
    unfolding Many1_def by auto
  then show "u \<noteq> [] \<and> (\<forall>x \<in> set u. in_class c x)"
    by (simp add: star_of_class)
next
  assume "u \<noteq> [] \<and> (\<forall>x \<in> set u. in_class c x)"
  then obtain x v where u: "u = [x] @ v" and "in_class c x" and "\<forall>y \<in> set v. in_class c y"
    by (cases u) auto
  then have "[x] \<in> lang (One c)" and "v \<in> lang (Many (One c))"
    by (simp_all add: star_of_class)
  then have "[x] @ v \<in> lang (Then (One c) (Many (One c)))"
    unfolding lang.simps(3) by blast
  with u show "u \<in> lang (Many1 (One c))" by (simp only: Many1_def)
qed

lemma in_lang_Opt: "u \<in> lang (Opt p) \<longleftrightarrow> u = [] \<or> u \<in> lang p"
  by (auto simp: Opt_def)

lemma in_lang_seq_Nil: "w \<in> lang (seq []) \<longleftrightarrow> w = []"
  by (simp add: seq_def)

lemma in_lang_seq_Cons:
  "w \<in> lang (seq (p # ps)) \<longleftrightarrow> (\<exists>u v. w = u @ v \<and> u \<in> lang p \<and> v \<in> lang (seq ps))"
  by (simp add: seq_def)


lemma seq_ConsE:
  assumes "w \<in> lang (seq (p # ps))"
  obtains u v where "w = u @ v" and "u \<in> lang p" and "v \<in> lang (seq ps)"
  using assms unfolding in_lang_seq_Cons by blast

lemma seq_ConsI: "u \<in> lang p \<Longrightarrow> v \<in> lang (seq ps) \<Longrightarrow> u @ v \<in> lang (seq (p # ps))"
  unfolding in_lang_seq_Cons by blast

lemma seq_NilI: "[] \<in> lang (seq [])"
  by (simp add: in_lang_seq_Nil)

lemma in_lang_any: "a \<in> lang (Many (One AnyChar))"
  unfolding in_lang_Many_One by simp

lemma ValidUrl_iff:
  "ValidUrl u \<longleftrightarrow>
   (\<exists>scheme a b. (scheme = ''http'' \<or> scheme = ''https'') \<and> u = scheme @ ''://'' @ a @ ''.'' @ b)"
  (is "?L \<longleftrightarrow> ?R")
proof
  assume ?L
  then have "u \<in> lang (seq [Or (word ''http'') (word ''https''), word ''://'',
      Many (One AnyChar), One (Lit CHR ''.''), Many (One AnyChar)])"
    by (simp only: ValidUrl_def matches_lang ValidUrl_pattern_def)
  then obtain s v1 where 1: "u = s @ v1" "s \<in> lang (Or (word ''http'') (word ''https''))"
    and t1: "v1 \<in> lang (seq [word ''://'', Many (One AnyChar), One (Lit CHR ''.''), Many (One AnyChar)])"
    by (rule seq_ConsE)
  from t1 obtain c v2 where 2: "v1 = c @ v2" "c \<in> lang (word ''://'')"
    and t2: "v2 \<in> lang (seq [Many (One AnyChar), One (Lit CHR ''.''), Many (One AnyChar)])"
    by (rule seq_ConsE)
  from t2 obtain a v3 where 3: "v2 = a @ v3"
    and t3: "v3 \<in> lang (seq [One (Lit CHR ''.''), Many (One AnyChar)])"
    by (rule seq_ConsE)
  from t3 obtain d v4 where 4: "v3 = d @ v4" "d \<in> lang (One (Lit CHR ''.''))"
    and t4: "v4 \<in> lang (seq [Many (One AnyChar)])"
    by (rule seq_ConsE)
  from t4 obtain b v5 where 5: "v4 = b @ v5" "v5 \<in> lang (seq [])"
    by (rule seq_ConsE)
  from 1(2) have s: "s = ''http'' \<or> s = ''https''" by (auto simp: lang_word)
  from 2(2) have c: "c = ''://''" by (simp only: lang_word singleton_iff)
  from 4(2) have d: "d = ''.''" by simp
  from 5(2) have "v5 = []" by (simp only: in_lang_seq_Nil)
  with 1(1) 2(1) 3 4(1) 5(1) c d have "u = s @ ''://'' @ a @ ''.'' @ b" by simp
  with s show ?R by blast
next
  assume ?R
  then obtain scheme a b where s: "scheme = ''http'' \<or> scheme = ''https''"
    and u: "u = scheme @ ''://'' @ a @ ''.'' @ b" by blast
  from s have "scheme \<in> lang (Or (word ''http'') (word ''https''))"
    by (auto simp: lang_word)
  moreover have "''://'' \<in> lang (word ''://'')" by (simp only: lang_word singleton_iff)
  moreover have "''.'' \<in> lang (One (Lit CHR ''.''))" by simp
  ultimately have "scheme @ ''://'' @ a @ ''.'' @ b @ [] \<in> lang ValidUrl_pattern"
    unfolding ValidUrl_pattern_def
    by (intro seq_ConsI seq_NilI in_lang_any)
  with u show ?L by (simp add: ValidUrl_def matches_lang)
qed

lemma matches_url_regex_iff:
  "matches_url_regex u \<longleftrightarrow>
   (\<exists>scheme host1 host2 rest.
      (scheme = ''http'' \<or> scheme = ''https'') \<and>
      u = scheme @ ''://'' @ host1 @ ''.'' @ host2 @ rest \<and>
      host1 \<noteq> [] \<and> CHR ''/'' \<notin> set host1 \<and>
      host2 \<noteq> [] \<and> CHR ''/'' \<notin> set host2 \<and>
      rest \<in> lang (Many regex_dot))"
  (is "?L \<longleftrightarrow> ?R")
proof
  assume ?L
  then have "u \<in> lang (seq [word ''http'', Opt (One (Lit CHR ''s'')), word ''://'',
          Many1 (One (Except CHR ''/'')), One (Lit CHR ''.''), Many1 (One (Except CHR ''/'')),
          Opt (One (Lit CHR ''/'')), Many regex_dot])"
    by (simp only: matches_url_regex_def matches_lang url_regex_def)
  then obtain h v1 where 1: "u = h @ v1" "h \<in> lang (word ''http'')"
    and t1: "v1 \<in> lang (seq [Opt (One (Lit CHR ''s'')), word ''://'',
          Many1 (One (Except CHR ''/'')), One (Lit CHR ''.''), Many1 (One (Except CHR ''/'')),
          Opt (One (Lit CHR ''/'')), Many regex_dot])"
    by (rule seq_ConsE)
  from t1 obtain o1 v2 where 2: "v1 = o1 @ v2" "o1 \<in> lang (Opt (One (Lit CHR ''s'')))"
    and t2: "v2 \<in> lang (seq [word ''://'',
          Many1 (One (Except CHR ''/'')), One (Lit CHR ''.''), Many1 (One (Except CHR ''/'')),
          Opt (One (Lit CHR ''/'')), Many regex_dot])"
    by (rule seq_ConsE)
  from t2 obtain c v3 where 3: "v2 = c @ v3" "c \<in> lang (word ''://'')"
    and t3: "v3 \<in> lang (seq [
          Many1 (One (Except CHR ''/'')), One (Lit CHR ''.''), Many1 (One (Except CHR ''/'')),
          Opt (One (Lit CHR ''/'')), Many regex_dot])"
    by (rule seq_ConsE)
  from t3 obtain h1 v4 where 4: "v3 = h1 @ v4" "h1 \<in> lang (Many1 (One (Except CHR ''/'')))"
    and t4: "v4 \<in> lang (seq [One (Lit CHR ''.''), Many1 (One (Except CHR ''/'')),
          Opt (One (Lit CHR ''/'')), Many regex_dot])"
    by (rule seq_ConsE)
  from t4 obtain d v5 where 5: "v4 = d @ v5" "d \<in> lang (One (Lit CHR ''.''))"
    and t5: "v5 \<in> lang (seq [Many1 (One (Except CHR ''/'')),
          Opt (One (Lit CHR ''/'')), Many regex_dot])"
    by (rule seq_ConsE)
  from t5 obtain h2 v6 where 6: "v5 = h2 @ v6" "h2 \<in> lang (Many1 (One (Except CHR ''/'')))"
    and t6: "v6 \<in> lang (seq [Opt (One (Lit CHR ''/'')), Many regex_dot])"
    by (rule seq_ConsE)
  from t6 obtain o2 v7 where 7: "v6 = o2 @ v7" "o2 \<in> lang (Opt (One (Lit CHR ''/'')))"
    and t7: "v7 \<in> lang (seq [Many regex_dot])"
    by (rule seq_ConsE)
  from t7 obtain r v8 where 8: "v7 = r @ v8" "r \<in> lang (Many regex_dot)" "v8 \<in> lang (seq [])"
    by (rule seq_ConsE)
  from 1(2) have h: "h = ''http''" by (simp only: lang_word singleton_iff)
  from 2(2) have o1: "o1 = [] \<or> o1 = ''s''" by (simp add: in_lang_Opt)
  from 3(2) have c: "c = ''://''" by (simp only: lang_word singleton_iff)
  from 4(2) have h1: "h1 \<noteq> []" "CHR ''/'' \<notin> set h1" by (auto simp: in_lang_Many1_One)
  from 5(2) have d: "d = ''.''" by simp
  from 6(2) have h2: "h2 \<noteq> []" "CHR ''/'' \<notin> set h2" by (auto simp: in_lang_Many1_One)
  from 7(2) have o2: "o2 = [] \<or> o2 = ''/''" by (simp add: in_lang_Opt)
  have slash: "''/'' \<in> lang regex_dot" by (simp add: regex_dot_def)
  from slash 8(2) have sr: "''/'' @ r \<in> lang (Many regex_dot)"
    unfolding lang.simps(5) by (rule star_step)
  from 8(3) have v8: "v8 = []" by (simp only: in_lang_seq_Nil)
  from 1(1) 2(1) 3(1) 4(1) 5(1) 6(1) 7(1) 8(1) h c d v8
  have u: "u = (''http'' @ o1) @ ''://'' @ h1 @ ''.'' @ h2 @ (o2 @ r)" by simp
  from o1 have s: "''http'' @ o1 = ''http'' \<or> ''http'' @ o1 = ''https''" by auto
  from o2 have r': "o2 @ r \<in> lang (Many regex_dot)"
  proof
    assume "o2 = []"
    with 8(2) show ?thesis by simp
  next
    assume "o2 = ''/''"
    with sr show ?thesis by (simp only:)
  qed
  from s u h1 h2 r' show ?R by blast
next
  assume ?R
  then obtain scheme host1 host2 rest where s: "scheme = ''http'' \<or> scheme = ''https''"
    and u: "u = scheme @ ''://'' @ host1 @ ''.'' @ host2 @ rest"
    and h1: "host1 \<noteq> []" "CHR ''/'' \<notin> set host1"
    and h2: "host2 \<noteq> []" "CHR ''/'' \<notin> set host2"
    and r: "rest \<in> lang (Many regex_dot)" by blast
  from s obtain o1 where o1: "scheme = ''http'' @ o1" "o1 \<in> lang (Opt (One (Lit CHR ''s'')))"
    by (auto simp: in_lang_Opt)
  have "''http'' \<in> lang (word ''http'')" and "''://'' \<in> lang (word ''://'')"
    by (simp_all only: lang_word singleton_iff)
  moreover from h1 have "host1 \<in> lang (Many1 (One (Except CHR ''/'')))"
    by (auto simp: in_lang_Many1_One)
  moreover have "''.'' \<in> lang (One (Lit CHR ''.''))" by simp
  moreover from h2 have "host2 \<in> lang (Many1 (One (Except CHR ''/'')))"
    by (auto simp: in_lang_Many1_One)
  moreover have "[] \<in> lang (Opt (One (Lit CHR ''/'')))" by (simp add: in_lang_Opt)
  moreover note r
  ultimately have "''http'' @ o1 @ ''://'' @ host1 @ ''.'' @ host2 @ [] @ rest @ [] \<in> lang url_regex"
    unfolding url_regex_def using o1(2)
    by (intro seq_ConsI seq_NilI)
  with u o1(1) show ?L by (simp add: matches_url_regex_def matches_lang)
qed

text \<open>
  The two shapes differ: the type lets the dot stand anywhere after \<^verbatim>\<open>://\<close>, the
  regular expression wants it in the host, before the first slash.
\<close>

lemma ValidUrl_not_url_regex:
  "ValidUrl ''https://localhost/feed.xml'' \<and> \<not> matches_url_regex ''https://localhost/feed.xml''"
  by (simp add: pattern_defs)

text \<open>
  The dot and the line terminators: no string that the trailing \<^verbatim>\<open>.*\<close> matches holds a
  line feed, a carriage return, or the bytes of U+2028 or U+2029 anywhere. So a URL
  whose path holds one of the four line terminators does not match, while other
  characters that begin with the byte E2 (U+2019, U+20AC) do. The class \<^verbatim>\<open>[^/]\<close> of
  the host takes a line terminator as it takes any character but the slash.
\<close>

lemma regex_dot_no_newline:
  "u \<in> lang regex_dot \<Longrightarrow> CHR 0x0A \<notin> set u \<and> CHR 0x0D \<notin> set u"
  by (auto simp: regex_dot_def)

lemma Many_regex_dot_no_newline:
  "r \<in> lang (Many regex_dot) \<Longrightarrow> CHR 0x0A \<notin> set r \<and> CHR 0x0D \<notin> set r"
proof -
  assume "r \<in> lang (Many regex_dot)"
  then have "r \<in> star (lang regex_dot)" by simp
  then show ?thesis
  proof (induction rule: star.induct)
    case star_nil
    show ?case by simp
  next
    case (star_step u v)
    with regex_dot_no_newline [of u] show ?case by simp
  qed
qed

lemma lang_Then_OneE:
  assumes "w \<in> lang (Then (One c) p)"
  obtains x v where "w = x # v" and "in_class c x" and "v \<in> lang p"
proof -
  from assms obtain u v where w: "w = u @ v" and u: "u \<in> lang (One c)" and v: "v \<in> lang p"
    unfolding lang.simps(3) by blast
  from u obtain x where "u = [x]" and "in_class c x"
    unfolding lang.simps(2) by blast
  with w v that show thesis by simp
qed

lemma lang_OneE:
  assumes "w \<in> lang (One c)"
  obtains x where "w = [x]" and "in_class c x"
  using assms unfolding lang.simps(2) by blast

lemma regex_dot_cases:
  assumes "u \<in> lang regex_dot"
  obtains x where "u = [x]" and "x \<noteq> CHR 0xE2"
  | c1 c2 where "u = [CHR 0xE2, c1, c2]" and "c1 \<noteq> CHR 0xE2" and "c2 \<noteq> CHR 0xE2"
      and "c1 = CHR 0x80 \<Longrightarrow> c2 \<noteq> CHR 0xA8 \<and> c2 \<noteq> CHR 0xA9"
proof -
  let ?C = "Then (One (NoneOf [CHR 0x0A, CHR 0x0D, CHR 0xE2, CHR 0x80]))
                     (One (NoneOf [CHR 0x0A, CHR 0x0D, CHR 0xE2]))"
  let ?D = "Then (One (Lit (CHR 0x80)))
                     (One (NoneOf [CHR 0x0A, CHR 0x0D, CHR 0xE2, CHR 0xA8, CHR 0xA9]))"
  from assms have "u \<in> lang (One (NoneOf [CHR 0x0A, CHR 0x0D, CHR 0xE2])) \<or>
      u \<in> lang (Then (One (Lit (CHR 0xE2))) (Or ?C ?D))"
    unfolding regex_dot_def lang.simps(4) Un_iff .
  then show thesis
  proof
    assume "u \<in> lang (One (NoneOf [CHR 0x0A, CHR 0x0D, CHR 0xE2]))"
    then obtain x where "u = [x]" and "in_class (NoneOf [CHR 0x0A, CHR 0x0D, CHR 0xE2]) x"
      by (rule lang_OneE)
    then have "u = [x]" and "x \<noteq> CHR 0xE2" by simp_all
    then show thesis by (rule that(1))
  next
    assume "u \<in> lang (Then (One (Lit (CHR 0xE2))) (Or ?C ?D))"
    then obtain x v where u: "u = x # v" and x: "in_class (Lit (CHR 0xE2)) x"
      and v: "v \<in> lang (Or ?C ?D)"
      by (rule lang_Then_OneE)
    from x have x: "x = CHR 0xE2" by simp
    from v have "v \<in> lang ?C \<or> v \<in> lang ?D"
      unfolding lang.simps(4) Un_iff .
    then show thesis
    proof
      assume "v \<in> lang ?C"
      then obtain c1 w where v: "v = c1 # w"
        and c1: "in_class (NoneOf [CHR 0x0A, CHR 0x0D, CHR 0xE2, CHR 0x80]) c1"
        and w: "w \<in> lang (One (NoneOf [CHR 0x0A, CHR 0x0D, CHR 0xE2]))"
        by (rule lang_Then_OneE)
      from w obtain c2 where w: "w = [c2]" and c2: "in_class (NoneOf [CHR 0x0A, CHR 0x0D, CHR 0xE2]) c2"
        by (rule lang_OneE)
      from u x v w have "u = [CHR 0xE2, c1, c2]" by simp
      moreover from c1 have "c1 \<noteq> CHR 0xE2" and "c1 \<noteq> CHR 0x80" by simp_all
      moreover from c2 have "c2 \<noteq> CHR 0xE2" by simp
      ultimately show thesis by (intro that(2) [of c1 c2]) simp_all
    next
      assume "v \<in> lang ?D"
      then obtain c1 w where v: "v = c1 # w"
        and c1: "in_class (Lit (CHR 0x80)) c1"
        and w: "w \<in> lang (One (NoneOf [CHR 0x0A, CHR 0x0D, CHR 0xE2, CHR 0xA8, CHR 0xA9]))"
        by (rule lang_Then_OneE)
      from w obtain c2 where w: "w = [c2]"
        and c2: "in_class (NoneOf [CHR 0x0A, CHR 0x0D, CHR 0xE2, CHR 0xA8, CHR 0xA9]) c2"
        by (rule lang_OneE)
      from u x v w have "u = [CHR 0xE2, c1, c2]" by simp
      moreover from c1 have "c1 \<noteq> CHR 0xE2" by simp
      moreover from c2 have "c2 \<noteq> CHR 0xE2" and "c2 \<noteq> CHR 0xA8 \<and> c2 \<noteq> CHR 0xA9" by simp_all
      ultimately show thesis by (intro that(2) [of c1 c2]) simp_all
    qed
  qed
qed


lemma Many_regex_dot_no_line_separator:
  assumes "r \<in> lang (Many regex_dot)" and "c = CHR 0xA8 \<or> c = CHR 0xA9"
  shows "r \<noteq> a @ [CHR 0xE2, CHR 0x80, c] @ b"
proof -
  from assms(1) have "r \<in> star (lang regex_dot)" by simp
  then show ?thesis
  proof (induction arbitrary: a rule: star.induct)
    case star_nil
    show ?case by simp
  next
    case (star_step u v)
    from star_step.hyps(1) show ?case
    proof (cases rule: regex_dot_cases)
      case (1 x)
      show ?thesis
      proof (cases a)
        case Nil
        with 1 show ?thesis by simp
      next
        case (Cons y a')
        with 1 star_step.IH [of a'] show ?thesis by simp
      qed
    next
      case (2 c1 c2)
      show ?thesis
      proof (cases a)
        case Nil
        with 2 assms(2) show ?thesis by auto
      next
        case a1: (Cons y1 a1)
        show ?thesis
        proof (cases a1)
          case Nil
          with a1 2 show ?thesis by simp
        next
          case a2: (Cons y2 a2)
          show ?thesis
          proof (cases a2)
            case Nil
            with a1 a2 2 show ?thesis by simp
          next
            case (Cons y3 a3)
            with a1 a2 2 star_step.IH [of a3] show ?thesis by simp
          qed
        qed
      qed
    qed
  qed
qed

lemma url_regex_line_terminators:
  "\<not> matches_url_regex (''https://a.b/'' @ [CHR 0x0A])"
  "\<not> matches_url_regex (''https://a.b/'' @ [CHR 0x0D])"
  "\<not> matches_url_regex (''https://a.b/'' @ [CHR 0xE2, CHR 0x80, CHR 0xA8])"
  "\<not> matches_url_regex (''https://a.b/'' @ [CHR 0xE2, CHR 0x80, CHR 0xA9])"
  "\<not> matches_url_regex (''https://a.b/x'' @ [CHR 0xE2, CHR 0x80, CHR 0xA8] @ ''y'')"
  "matches_url_regex (''https://a.b/'' @ [CHR 0xE2, CHR 0x80, CHR 0x99])"
  "matches_url_regex (''https://a.b/'' @ [CHR 0xE2, CHR 0x82, CHR 0xAC] @ ''y'')"
  "matches_url_regex (''https://a'' @ [CHR 0xE2, CHR 0x80, CHR 0xA8] @ ''.b'')"
  by (simp_all add: pattern_defs)

section \<open>Properties of the registry construction\<close>

lemma push_each_map:
  "push_each ts acc = acc @ map (\<lambda>(l, u). \<lparr>label = l, url = u\<rparr>) ts"
  by (induction ts acc rule: push_each.induct) simp_all

lemma createFeedInfoList_map:
  "createFeedInfoList ts = Inr (map (\<lambda>(l, u). \<lparr>label = l, url = u\<rparr>) ts)"
  by (simp add: createFeedInfoList_def push_each_map)

lemma push_each_st_append:
  "push_each_st ts (length h) (h @ [acc]) =
   h @ [acc @ map (\<lambda>(l, u). \<lparr>label = l, url = u\<rparr>) ts]"
proof (induction ts arbitrary: acc)
  case Nil
  show ?case by simp
next
  case (Cons t ts)
  obtain l u where t: "t = (l, u)" by (cases t)
  have "array_push (length h) \<lparr>label = l, url = u\<rparr> (h @ [acc]) =
      h @ [acc @ [\<lparr>label = l, url = u\<rparr>]]"
    by (simp add: array_push_def)
  with Cons.IH [of "acc @ [\<lparr>label = l, url = u\<rparr>]"] t show ?case by simp
qed

lemma createFeedInfoList_st_eq:
  "createFeedInfoList_st ts h =
   (Inr (length h), h @ [map (\<lambda>(l, u). \<lparr>label = l, url = u\<rparr>) ts])"
  using push_each_st_append [of ts h "[]"]
  by (simp add: createFeedInfoList_st_def new_array_def)

text \<open>
  C1. The claim: for every list of (label, url) tuples with an entry whose url does not
  match \<^verbatim>\<open>^(https?)://[^/]+\.[^/]+/?.*$\<close>, \<open>createFeedInfoList\<close> fails with a
  ConfigurationError and produces no list. The code does not: the URL
  \<^verbatim>\<open>https://localhost/feed.xml\<close> is of type \<^verbatim>\<open>ValidUrl\<close>, does not match the regular
  expression, and a list holding it is returned whole.
\<close>

theorem createFeedInfoList_rejects_bad_url_counterexample:
  "\<not> matches_url_regex ''https://localhost/feed.xml'' \<and>
   createFeedInfoList
     [(''ITmedia AI+'', ''https://rss.itmedia.co.jp/rss/2.0/aiplus.xml''),
      (''Local'', ''https://localhost/feed.xml'')] \<noteq> Inl ConfigurationError \<and>
   createFeedInfoList
     [(''ITmedia AI+'', ''https://rss.itmedia.co.jp/rss/2.0/aiplus.xml''),
      (''Local'', ''https://localhost/feed.xml'')] =
   Inr [\<lparr>label = ''ITmedia AI+'', url = ''https://rss.itmedia.co.jp/rss/2.0/aiplus.xml''\<rparr>,
        \<lparr>label = ''Local'', url = ''https://localhost/feed.xml''\<rparr>]"
  by (simp add: createFeedInfoList_map pattern_defs)

text \<open>
  C1, as amended. For every list of (label, url) tuples with an entry whose url does not
  match the regular expression, \<open>createFeedInfoList\<close> raises no ConfigurationError and
  returns the complete list: the record of every tuple, the one with that url included,
  in the order of the tuples. (The shape of a url is checked by the compiler alone,
  against the type \<^verbatim>\<open>ValidUrl\<close>.)
\<close>

theorem createFeedInfoList_keeps_bad_url:
  "(l, u) \<in> set ts \<Longrightarrow> \<not> matches_url_regex u \<Longrightarrow>
   createFeedInfoList ts \<noteq> Inl ConfigurationError \<and>
   createFeedInfoList ts = Inr (map (\<lambda>(l, u). \<lparr>label = l, url = u\<rparr>) ts)"
  by (simp add: createFeedInfoList_map)

theorem createFeedInfoList_keeps_bad_url_witness:
  "\<not> matches_url_regex ''https://localhost/feed.xml'' \<and>
   createFeedInfoList
     [(''ITmedia AI+'', ''https://rss.itmedia.co.jp/rss/2.0/aiplus.xml''),
      (''Local'', ''https://localhost/feed.xml''),
      (''Qiita'', ''https://qiita.com/tags/AI/feed'')] \<noteq> Inl ConfigurationError \<and>
   createFeedInfoList
     [(''ITmedia AI+'', ''https://rss.itmedia.co.jp/rss/2.0/aiplus.xml''),
      (''Local'', ''https://localhost/feed.xml''),
      (''Qiita'', ''https://qiita.com/tags/AI/feed'')] =
   Inr [\<lparr>label = ''ITmedia AI+'', url = ''https://rss.itmedia.co.jp/rss/2.0/aiplus.xml''\<rparr>,
        \<lparr>label = ''Local'', url = ''https://localhost/feed.xml''\<rparr>,
        \<lparr>label = ''Qiita'', url = ''https://qiita.com/tags/AI/feed''\<rparr>]"
proof -
  have n: "\<not> matches_url_regex ''https://localhost/feed.xml''"
    by (simp add: pattern_defs)
  have m: "(''Local'', ''https://localhost/feed.xml'') \<in>
      set [(''ITmedia AI+'', ''https://rss.itmedia.co.jp/rss/2.0/aiplus.xml''),
           (''Local'', ''https://localhost/feed.xml''),
           (''Qiita'', ''https://qiita.com/tags/AI/feed'')]"
    by simp
  from createFeedInfoList_keeps_bad_url [OF m n] n show ?thesis by simp
qed

text \<open>
  C2. For every list of (label, url) tuples, \<open>createFeedInfoList\<close> returns a list of the
  same length whose i-th element is the record made of the i-th tuple's label and url,
  unchanged and in the same order; for the two-entry sample list (ITmedia AI+, Zenn AI
  tag) it returns exactly those two records in that order.
\<close>

theorem createFeedInfoList_preserves_entries:
  "(\<exists>fs. createFeedInfoList ts = Inr fs \<and> length fs = length ts \<and>
      (\<forall>i < length ts. fs ! i = \<lparr>label = fst (ts ! i), url = snd (ts ! i)\<rparr>)) \<and>
   createFeedInfoList
     [(''ITmedia AI+'', ''https://rss.itmedia.co.jp/rss/2.0/aiplus.xml''),
      (''Zenn'' @ fw_lparen @ ''AI'' @ ja_tag @ fw_rparen, ''https://zenn.dev/topics/ai/feed'')] =
   Inr [\<lparr>label = ''ITmedia AI+'', url = ''https://rss.itmedia.co.jp/rss/2.0/aiplus.xml''\<rparr>,
        \<lparr>label = ''Zenn'' @ fw_lparen @ ''AI'' @ ja_tag @ fw_rparen,
         url = ''https://zenn.dev/topics/ai/feed''\<rparr>]"
  by (simp add: createFeedInfoList_map case_prod_unfold)

theorem createFeedInfoList_preserves_entries_witness:
  "\<exists>fs. createFeedInfoList [(''a'', ''https://a.example/1''), (''b'', ''http://b.example/2'')] = Inr fs \<and>
     length fs = 2 \<and>
     fs ! 0 = \<lparr>label = ''a'', url = ''https://a.example/1''\<rparr> \<and>
     fs ! 1 = \<lparr>label = ''b'', url = ''http://b.example/2''\<rparr>"
  using createFeedInfoList_preserves_entries
    [of "[(''a'', ''https://a.example/1''), (''b'', ''http://b.example/2'')]"]
  by (auto simp: less_Suc_eq)

text \<open>
  C3. Each of the eleven entries of the exported registry \<open>FEED_INFO_LIST\<close> has a url
  that matches \<^verbatim>\<open>^(https?)://[^/]+\.[^/]+/?.*$\<close>: an absolute URL with the scheme http
  or https and a dotted host.
\<close>

theorem FEED_INFO_LIST_urls_match:
  "\<exists>fs. FEED_INFO_LIST = Inr fs \<and> length fs = 11 \<and>
     list_all (\<lambda>f. matches_url_regex (url f)) fs"
  by (simp add: FEED_INFO_LIST_def createFeedInfoList_map pattern_defs ja_defs)

text \<open>The literals of the registry are of the type the source gives them.\<close>

lemma FEED_INFO_LIST_well_typed:
  "\<exists>fs. FEED_INFO_LIST = Inr fs \<and> list_all (\<lambda>f. ValidUrl (url f)) fs"
  by (simp add: FEED_INFO_LIST_def createFeedInfoList_map pattern_defs ja_defs)

text \<open>
  C6. Registry construction does not enforce that labels are unique: for every list of
  (label, url) tuples in which two different entries have the same label,
  \<open>createFeedInfoList\<close> raises no error and returns all entries: the record of every
  tuple at its position, both of the two with the same label included.
\<close>

theorem createFeedInfoList_keeps_duplicate_labels:
  "i < length ts \<Longrightarrow> j < length ts \<Longrightarrow> i \<noteq> j \<Longrightarrow> fst (ts ! i) = fst (ts ! j) \<Longrightarrow>
   createFeedInfoList ts = Inr (map (\<lambda>(l, u). \<lparr>label = l, url = u\<rparr>) ts) \<and>
   (\<exists>fs. createFeedInfoList ts = Inr fs \<and> length fs = length ts \<and>
      (\<forall>k < length ts. fs ! k = \<lparr>label = fst (ts ! k), url = snd (ts ! k)\<rparr>) \<and>
      label (fs ! i) = label (fs ! j))"
  by (simp add: createFeedInfoList_map case_prod_unfold)

theorem createFeedInfoList_keeps_duplicate_labels_witness:
  "createFeedInfoList
     [(''Zenn'', ''https://zenn.dev/topics/ai/feed''),
      (''Qiita'', ''https://qiita.com/tags/AI/feed''),
      (''Zenn'', ''https://zenn.dev/topics/llm/feed'')] =
   Inr [\<lparr>label = ''Zenn'', url = ''https://zenn.dev/topics/ai/feed''\<rparr>,
        \<lparr>label = ''Qiita'', url = ''https://qiita.com/tags/AI/feed''\<rparr>,
        \<lparr>label = ''Zenn'', url = ''https://zenn.dev/topics/llm/feed''\<rparr>] \<and>
   (\<exists>fs. createFeedInfoList
       [(''Zenn'', ''https://zenn.dev/topics/ai/feed''),
        (''Qiita'', ''https://qiita.com/tags/AI/feed''),
        (''Zenn'', ''https://zenn.dev/topics/llm/feed'')] = Inr fs \<and>
     length fs = 3 \<and>
     fs ! 0 = \<lparr>label = ''Zenn'', url = ''https://zenn.dev/topics/ai/feed''\<rparr> \<and>
     fs ! 1 = \<lparr>label = ''Qiita'', url = ''https://qiita.com/tags/AI/feed''\<rparr> \<and>
     fs ! 2 = \<lparr>label = ''Zenn'', url = ''https://zenn.dev/topics/llm/feed''\<rparr> \<and>
     label (fs ! 0) = label (fs ! 2))"
  using createFeedInfoList_keeps_duplicate_labels
    [of 0 "[(''Zenn'', ''https://zenn.dev/topics/ai/feed''),
            (''Qiita'', ''https://qiita.com/tags/AI/feed''),
            (''Zenn'', ''https://zenn.dev/topics/llm/feed'')]" 2]
  by (auto simp: numeral_3_eq_3 numeral_2_eq_2 less_Suc_eq)

text \<open>
  C7. Registry construction is deterministic and has no side effect: two runs of
  \<open>createFeedInfoList\<close> on the same list of tuples, from any two stores, return equal
  lists; the list returned is the one the tuples alone determine; and the store after a
  run is the store before it with the one new array at its end, so that nothing but the
  returned list is written.
\<close>

theorem createFeedInfoList_deterministic_no_side_effect:
  "returned_list (createFeedInfoList_st ts h) = returned_list (createFeedInfoList_st ts h') \<and>
   returned_list (createFeedInfoList_st ts h) = createFeedInfoList ts \<and>
   take (length h) (snd (createFeedInfoList_st ts h)) = h \<and>
   length (snd (createFeedInfoList_st ts h)) = Suc (length h)"
  by (simp add: createFeedInfoList_st_eq returned_list_def createFeedInfoList_map)

text \<open>
  C8. \<open>createFeedInfoList\<close> is total and never throws, whatever list of (label, url)
  string tuples it is given: it checks neither the shape of a url nor the uniqueness of
  a label when it runs (the constraint on a url is the type \<^verbatim>\<open>ValidUrl\<close> alone, which
  the compiler checks). A list of two equal tuples whose url is not a \<^verbatim>\<open>ValidUrl\<close> is
  returned as it is.
\<close>

theorem createFeedInfoList_never_throws:
  "(\<exists>fs. createFeedInfoList ts = Inr fs \<and> length fs = length ts) \<and>
   (\<forall>e. createFeedInfoList ts \<noteq> Inl e) \<and>
   \<not> ValidUrl ''not a url'' \<and>
   createFeedInfoList [(''x'', ''not a url''), (''x'', ''not a url'')] =
     Inr [\<lparr>label = ''x'', url = ''not a url''\<rparr>, \<lparr>label = ''x'', url = ''not a url''\<rparr>]"
  by (simp add: createFeedInfoList_map pattern_defs)

section \<open>Properties of the site configuration\<close>

text \<open>
  C4. Every numeric setting of the site configuration (feedFetchConcurrency,
  feedOgFetchConcurrency, aggregateFeedDurationInHours, maxFeedDescriptionLength,
  maxFeedContentLength, processImageConcurrency, eleventyFetchConcurrency,
  fetchedFeedCacheDurationInHours, fetchedOgCacheDurationInHours) is an integer greater
  than zero.
\<close>

theorem siteConfig_tunables_positive:
  "0 < feedFetchConcurrency siteConfig \<and>
   0 < feedOgFetchConcurrency siteConfig \<and>
   0 < aggregateFeedDurationInHours siteConfig \<and>
   0 < maxFeedDescriptionLength siteConfig \<and>
   0 < maxFeedContentLength siteConfig \<and>
   0 < processImageConcurrency siteConfig \<and>
   0 < eleventyFetchConcurrency siteConfig \<and>
   0 < fetchedFeedCacheDurationInHours siteConfig \<and>
   0 < fetchedOgCacheDurationInHours siteConfig"
  by (simp add: siteConfig_def)

text \<open>
  C5. Each of the three feed URLs of the site configuration is the site URL followed by
  \<^verbatim>\<open>feeds/\<close> and the file name of its format: \<^verbatim>\<open>atom.xml\<close>, \<^verbatim>\<open>rss.xml\<close>,
  \<^verbatim>\<open>feed.json\<close>.
\<close>

theorem siteConfig_feedUrls:
  "atom (feedUrls siteConfig) = siteUrl siteConfig @ ''feeds/'' @ ''atom.xml'' \<and>
   rss (feedUrls siteConfig) = siteUrl siteConfig @ ''feeds/'' @ ''rss.xml'' \<and>
   json (feedUrls siteConfig) = siteUrl siteConfig @ ''feeds/'' @ ''feed.json'' \<and>
   atom (feedUrls siteConfig) = ''https://univac-1.github.io/ai-info-rss-feed/feeds/atom.xml'' \<and>
   rss (feedUrls siteConfig) = ''https://univac-1.github.io/ai-info-rss-feed/feeds/rss.xml'' \<and>
   json (feedUrls siteConfig) = ''https://univac-1.github.io/ai-info-rss-feed/feeds/feed.json''"
  by (simp add: siteConfig_def const_siteUrl_def const_siteUrlStem_def)

text \<open>
  C9. The aggregation window \<open>aggregateFeedDurationInHours\<close> is exactly 192, that is
  8 * 24: eight days in hours.
\<close>

theorem siteConfig_aggregate_window:
  "aggregateFeedDurationInHours siteConfig = 192 \<and>
   aggregateFeedDurationInHours siteConfig = 8 * 24"
  by (simp add: siteConfig_def)

text \<open>
  C10. The site URL is the stem with a slash at its end, and each of the three feed URLs
  has the site URL as a proper prefix.
\<close>

theorem siteConfig_urls_under_site:
  "siteUrl siteConfig = siteUrlStem siteConfig @ ''/'' \<and>
   strict_prefix (siteUrl siteConfig) (atom (feedUrls siteConfig)) \<and>
   strict_prefix (siteUrl siteConfig) (rss (feedUrls siteConfig)) \<and>
   strict_prefix (siteUrl siteConfig) (json (feedUrls siteConfig))"
  by (simp add: siteConfig_def const_siteUrl_def const_siteUrlStem_def)

end
